theory Spec2Isabelle
  imports Complex_Main
begin

section \<open>JavaScript numbers\<close>

text \<open>
  The slider (src/src/CanvasSlider.tsx) computes with JavaScript numbers, which are
  binary64 floating-point numbers. A finite number is modelled by the real it denotes
  (the two zeros are one); the results of dividing by zero are kept as values of their
  own, since HOL's \<open>x / 0 = 0\<close> is not what the program computes. The operations below
  are exact; \<open>to_double\<close> is the rounding that follows an operation. It is applied in
  \<open>drawCurrentImages\<close>, where the slide to paint is chosen from a rounded quotient. In
  \<open>drawImageFit\<close> and in the mouse handler rounding moves a coordinate or the stored
  offset by a last-bit amount only and is left out.
\<close>

datatype jsnum = Fin real | PosInf | NegInf | NaN

fun jneg :: "jsnum \<Rightarrow> jsnum" where
  "jneg (Fin a) = Fin (- a)"
| "jneg PosInf = NegInf"
| "jneg NegInf = PosInf"
| "jneg NaN = NaN"

fun jadd :: "jsnum \<Rightarrow> jsnum \<Rightarrow> jsnum" where
  "jadd (Fin a) (Fin b) = Fin (a + b)"
| "jadd NaN _ = NaN"
| "jadd _ NaN = NaN"
| "jadd PosInf NegInf = NaN"
| "jadd NegInf PosInf = NaN"
| "jadd PosInf _ = PosInf"
| "jadd _ PosInf = PosInf"
| "jadd NegInf _ = NegInf"
| "jadd _ NegInf = NegInf"

definition jsub :: "jsnum \<Rightarrow> jsnum \<Rightarrow> jsnum" where
  "jsub a b = jadd a (jneg b)"

fun jmul :: "jsnum \<Rightarrow> jsnum \<Rightarrow> jsnum" where
  "jmul (Fin a) (Fin b) = Fin (a * b)"
| "jmul NaN _ = NaN"
| "jmul _ NaN = NaN"
| "jmul PosInf (Fin b) = (if b = 0 then NaN else if 0 < b then PosInf else NegInf)"
| "jmul NegInf (Fin b) = (if b = 0 then NaN else if 0 < b then NegInf else PosInf)"
| "jmul (Fin a) PosInf = (if a = 0 then NaN else if 0 < a then PosInf else NegInf)"
| "jmul (Fin a) NegInf = (if a = 0 then NaN else if 0 < a then NegInf else PosInf)"
| "jmul PosInf PosInf = PosInf"
| "jmul PosInf NegInf = NegInf"
| "jmul NegInf PosInf = NegInf"
| "jmul NegInf NegInf = PosInf"

fun jdiv :: "jsnum \<Rightarrow> jsnum \<Rightarrow> jsnum" where
  "jdiv (Fin a) (Fin b) =
     (if b \<noteq> 0 then Fin (a / b)
      else if 0 < a then PosInf else if a < 0 then NegInf else NaN)"
| "jdiv NaN _ = NaN"
| "jdiv _ NaN = NaN"
| "jdiv (Fin a) PosInf = Fin 0"
| "jdiv (Fin a) NegInf = Fin 0"
| "jdiv PosInf (Fin b) = (if 0 \<le> b then PosInf else NegInf)"
| "jdiv NegInf (Fin b) = (if 0 \<le> b then NegInf else PosInf)"
| "jdiv PosInf PosInf = NaN"
| "jdiv PosInf NegInf = NaN"
| "jdiv NegInf PosInf = NaN"
| "jdiv NegInf NegInf = NaN"

text \<open>The comparison \<open>a > b\<close>: false as soon as one side is NaN.\<close>

fun jgt :: "jsnum \<Rightarrow> jsnum \<Rightarrow> bool" where
  "jgt (Fin a) (Fin b) = (b < a)"
| "jgt NaN _ = False"
| "jgt _ NaN = False"
| "jgt PosInf PosInf = False"
| "jgt PosInf _ = True"
| "jgt _ PosInf = False"
| "jgt NegInf _ = False"
| "jgt (Fin a) NegInf = True"

text \<open>\<open>Math.floor\<close>.\<close>

fun jfloor :: "jsnum \<Rightarrow> jsnum" where
  "jfloor (Fin a) = Fin (of_int \<lfloor>a\<rfloor>)"
| "jfloor x = x"

text \<open>
  The remainder operator \<open>a % b\<close>: the quotient is truncated towards zero, so the result
  has the sign of the dividend.
\<close>

definition trunc :: "real \<Rightarrow> int" where
  "trunc x = (if 0 \<le> x then \<lfloor>x\<rfloor> else \<lceil>x\<rceil>)"

fun jrem :: "jsnum \<Rightarrow> jsnum \<Rightarrow> jsnum" where
  "jrem (Fin a) (Fin b) = (if b = 0 then NaN else Fin (a - b * of_int (trunc (a / b))))"
| "jrem (Fin a) PosInf = Fin a"
| "jrem (Fin a) NegInf = Fin a"
| "jrem (Fin a) NaN = NaN"
| "jrem PosInf _ = NaN"
| "jrem NegInf _ = NaN"
| "jrem NaN _ = NaN"

subsection \<open>Rounding to binary64\<close>

text \<open>
  Round to nearest, ties to even. \<open>binade n x\<close> is the exponent \<open>e\<close> with
  \<open>2^e \<le> x < 2^(e+1)\<close> of a positive \<open>x\<close>, found in at most \<open>n\<close> steps; 2200 steps
  reach past both ends of the exponent range. The spacing of the doubles around \<open>x\<close> is
  \<open>2^(e - 52)\<close>, with \<open>e\<close> not below \<open>-1022\<close> (subnormal numbers); a result of
  magnitude \<open>2^1024\<close> is an infinity.
\<close>

definition round_half_even :: "real \<Rightarrow> int" where
  "round_half_even y =
     (let f = \<lfloor>y\<rfloor>; d = y - of_int f
      in if d < 1 / 2 then f else if 1 / 2 < d then f + 1 else if even f then f else f + 1)"

fun binade :: "nat \<Rightarrow> real \<Rightarrow> int" where
  "binade 0 x = 0"
| "binade (Suc n) x =
     (if 2 \<le> x then binade n (x / 2) + 1
      else if x < 1 then binade n (x * 2) - 1
      else 0)"

definition pow2 :: "int \<Rightarrow> real" where
  "pow2 k = (if 0 \<le> k then 2 ^ nat k else 1 / 2 ^ nat (- k))"

definition to_double :: "real \<Rightarrow> jsnum" where
  "to_double x =
     (if x = 0 then Fin 0
      else
        let e = max (binade 2200 \<bar>x\<bar>) (- 1022);
            u = pow2 (e - 52);
            r = of_int (round_half_even (x / u)) * u
        in if 2 ^ 1024 \<le> r then PosInf
           else if r \<le> - (2 ^ 1024) then NegInf
           else Fin r)"

fun jround :: "jsnum \<Rightarrow> jsnum" where
  "jround (Fin a) = to_double a"
| "jround x = x"

subsection \<open>Arrays\<close>

text \<open>
  Reading \<open>xs[i]\<close>: \<open>undefined\<close> (here \<open>None\<close>) unless \<open>i\<close> is an integer index
  of the array.
\<close>

fun array_get :: "'a list \<Rightarrow> jsnum \<Rightarrow> 'a option" where
  "array_get xs (Fin i) =
     (if i = of_int \<lfloor>i\<rfloor> \<and> 0 \<le> i \<and> i < real (length xs) then Some (xs ! nat \<lfloor>i\<rfloor>) else None)"
| "array_get xs _ = None"

section \<open>The drawing surface\<close>

text \<open>
  A loaded \<open>HTMLImageElement\<close>: its source and its intrinsic size. The 2D context and the
  canvas element are outside the program; what the program does to them is the list of
  calls it makes, in order.
\<close>

record image =
  img_src :: string
  img_width :: nat
  img_height :: nat

datatype canvas_op =
    SetWidth real
  | SetHeight real
  | SetTransform real real real real real real
  | Scale real real
  | ClearRect real real real real
  | FillStyle string
  | FillRect jsnum real real real
  | DrawImage image jsnum jsnum jsnum jsnum

subsection \<open>drawImageFit\<close>

definition drawImageFit :: "image \<Rightarrow> jsnum \<Rightarrow> real \<Rightarrow> real \<Rightarrow> string \<Rightarrow> canvas_op list" where
  "drawImageFit img xOffset canvasWidth canvasHeight backgroundColor =
     (let imgRatio = jdiv (Fin (real (img_width img))) (Fin (real (img_height img)));
          canvasRatio = jdiv (Fin canvasWidth) (Fin canvasHeight);
          (drawWidth, drawHeight, drawX, drawY) =
            (if jgt imgRatio canvasRatio then
               (let drawHeight = jdiv (Fin canvasWidth) imgRatio
                in (Fin canvasWidth, drawHeight, Fin 0,
                    jdiv (jsub (Fin canvasHeight) drawHeight) (Fin 2)))
             else
               (let drawWidth = jmul (Fin canvasHeight) imgRatio
                in (drawWidth, Fin canvasHeight,
                    jdiv (jsub (Fin canvasWidth) drawWidth) (Fin 2), Fin 0)))
      in [FillStyle backgroundColor,
          FillRect xOffset 0 canvasWidth canvasHeight,
          DrawImage img (jadd drawX xOffset) drawY drawWidth drawHeight])"

subsection \<open>drawCurrentImages\<close>

text \<open>
  The arguments are what the callback reads when it runs: the \<open>loadedImages\<close> and
  \<open>backgroundColor\<close> it closes over, \<open>scrollRef.current\<close>, and the width and height of
  the canvas's bounding rectangle. The quotient, the sum and the difference are rounded;
  the remainder and the negation are exact in binary64.
\<close>

definition drawCurrentImages ::
  "image list \<Rightarrow> string \<Rightarrow> real \<Rightarrow> real \<Rightarrow> real \<Rightarrow> canvas_op list" where
  "drawCurrentImages loadedImages backgroundColor scroll width height =
     (let slideWidth = width;
          slideIndex = jfloor (jround (jdiv (Fin scroll) (Fin slideWidth)));
          offset = jrem (Fin scroll) (Fin slideWidth);
          current = array_get loadedImages slideIndex;
          next = array_get loadedImages (jround (jadd slideIndex (Fin 1)))
      in [ClearRect 0 0 width height]
         @ (case current of None \<Rightarrow> []
            | Some img \<Rightarrow> drawImageFit img (jneg offset) width height backgroundColor)
         @ (case next of None \<Rightarrow> []
            | Some img \<Rightarrow>
                drawImageFit img (jround (jsub (Fin width) offset)) width height
                  backgroundColor))"

section \<open>The preloader\<close>

text \<open>
  \<open>loadImages\<close> creates one promise per source and awaits \<open>Promise.all\<close> of them. A
  request in flight is the list of its sources and the state of each image: still
  loading, loaded (\<open>onload\<close> resolved the promise with the element) or failed
  (\<open>onerror\<close> rejected it).
\<close>

datatype slot = Pending | Loaded image | Failed

record load_request =
  req_srcs :: "string list"
  req_slots :: "slot list"

datatype settlement = Unsettled | Fulfilled "image list" | Rejected

fun slot_image :: "slot \<Rightarrow> image option" where
  "slot_image (Loaded img) = Some img"
| "slot_image _ = None"

text \<open>
  \<open>Promise.all\<close>: rejected as soon as one promise is rejected, fulfilled with the values
  in the order of the input once every promise is fulfilled.
\<close>

definition promise_all :: "slot list \<Rightarrow> settlement" where
  "promise_all slots =
     (if list_ex (\<lambda>s. s = Failed) slots then Rejected
      else case those (map slot_image slots) of
             Some imgs \<Rightarrow> Fulfilled imgs
           | None \<Rightarrow> Unsettled)"

section \<open>The component\<close>

text \<open>
  The state of one mounted \<open>CanvasSlider\<close> and of the part of the browser it talks to.
  \<^item> \<open>images\<close>, \<open>backgroundColor\<close>: the props (the default colour already applied);
  \<^item> \<open>loadedImages\<close>, \<open>isDragging\<close>: the two \<open>useState\<close> cells;
  \<^item> \<open>startXRef\<close>, \<open>scrollRef\<close>, \<open>animationFrame\<close>: the three refs;
  \<^item> \<open>resizeListener\<close>: the \<open>resize\<close> listener of the second effect, when it is
    installed, with the \<open>dpr\<close> its closure holds;
  \<^item> \<open>rectWidth\<close>, \<open>rectHeight\<close>: what \<open>canvas.getBoundingClientRect()\<close> returns;
    \<open>devicePixelRatio\<close>: \<open>window.devicePixelRatio\<close>;
  \<^item> \<open>frameCallbacks\<close>: the browser's list of callbacks passed to
    \<open>requestAnimationFrame\<close> and not run yet, each with its handle and the
    \<open>loadedImages\<close> its \<open>drawCurrentImages\<close> closes over; \<open>nextFrameId\<close>: the next handle;
  \<^item> \<open>requests\<close>: every \<open>loadImages\<close> call so far, in order;
  \<^item> \<open>canvasLog\<close>: the calls made on the canvas and its context so far.

  A state update, the render it causes and the effects of that render are one step.
  The mouse listeners and \<open>drawCurrentImages\<close> are created again whenever
  \<open>isDragging\<close> or \<open>loadedImages\<close> changes, so they read the current values; the
  frame callback and the \<open>dpr\<close> of the resize listener are the two closures that
  can be older than the state.
\<close>

record slider =
  images :: "string list"
  backgroundColor :: string
  loadedImages :: "image list"
  isDragging :: bool
  startXRef :: real
  scrollRef :: real
  animationFrame :: "nat option"
  resizeListener :: "real option"
  rectWidth :: real
  rectHeight :: real
  devicePixelRatio :: real
  frameCallbacks :: "(nat \<times> image list) list"
  nextFrameId :: nat
  requests :: "load_request list"
  canvasLog :: "canvas_op list"

definition draw :: "image list \<Rightarrow> slider \<Rightarrow> slider" where
  "draw imgs st =
     st\<lparr>canvasLog := canvasLog st
          @ drawCurrentImages imgs (backgroundColor st) (scrollRef st) (rectWidth st) (rectHeight st)\<rparr>"

subsection \<open>The resize effect\<close>

definition resizeCanvas :: "real \<Rightarrow> slider \<Rightarrow> slider" where
  "resizeCanvas dpr st =
     draw (loadedImages st)
       (st\<lparr>canvasLog := canvasLog st
             @ [SetWidth (rectWidth st * dpr), SetHeight (rectHeight st * dpr),
                SetTransform 1 0 0 1 0 0, Scale dpr dpr]\<rparr>)"

text \<open>
  The effect runs after each render in which \<open>loadedImages\<close> changed: the old listener is
  removed, and unless the list is empty \<open>window.devicePixelRatio || 1\<close> is read,
  \<open>resizeCanvas\<close> is called once and installed as the new listener.
\<close>

definition resize_effect :: "slider \<Rightarrow> slider" where
  "resize_effect st =
     (if loadedImages st = [] then st\<lparr>resizeListener := None\<rparr>
      else let dpr = (if devicePixelRatio st = 0 then 1 else devicePixelRatio st)
           in resizeCanvas dpr (st\<lparr>resizeListener := Some dpr\<rparr>))"

definition setLoadedImages :: "image list \<Rightarrow> slider \<Rightarrow> slider" where
  "setLoadedImages loaded st = resize_effect (st\<lparr>loadedImages := loaded\<rparr>)"

subsection \<open>The load effect\<close>

definition loadImages :: "slider \<Rightarrow> slider" where
  "loadImages st =
     (let slots = replicate (length (images st)) Pending;
          st' = st\<lparr>requests := requests st @ [\<lparr>req_srcs = images st, req_slots = slots\<rparr>]\<rparr>
      in case promise_all slots of
           Fulfilled loaded \<Rightarrow> setLoadedImages loaded st'
         | _ \<Rightarrow> st')"

text \<open>
  An image of request \<open>r\<close> settles. When this settles the request's \<open>Promise.all\<close>
  as fulfilled, \<open>loadImages\<close> resumes and calls \<open>setLoadedImages\<close>; when it rejects it,
  the \<open>await\<close> throws and nothing is stored.
\<close>

definition settle_image :: "nat \<Rightarrow> nat \<Rightarrow> slot \<Rightarrow> slider \<Rightarrow> slider" where
  "settle_image r i outcome st =
     (if r < length (requests st) \<and> i < length (req_slots (requests st ! r))
         \<and> req_slots (requests st ! r) ! i = Pending
      then
        let req = requests st ! r;
            slots = (req_slots req)[i := outcome];
            st' = st\<lparr>requests := (requests st)[r := req\<lparr>req_slots := slots\<rparr>]\<rparr>
        in if promise_all (req_slots req) = Unsettled
           then (case promise_all slots of
                   Fulfilled loaded \<Rightarrow> setLoadedImages loaded st'
                 | _ \<Rightarrow> st')
           else st'
      else st)"

subsection \<open>The mouse handlers\<close>

definition handleMouseDown :: "real \<Rightarrow> slider \<Rightarrow> slider" where
  "handleMouseDown clientX st = st\<lparr>isDragging := True, startXRef := clientX\<rparr>"

definition handleMouseMove :: "real \<Rightarrow> slider \<Rightarrow> slider" where
  "handleMouseMove clientX st =
     (if \<not> isDragging st \<or> length (loadedImages st) = 0 then st
      else
        let width = rectWidth st;
            dx = clientX - startXRef st;
            st1 = st\<lparr>startXRef := clientX\<rparr>;
            maxScroll = (real (length (loadedImages st1)) - 1) * width;
            st2 = st1\<lparr>scrollRef := max 0 (min (scrollRef st1 - dx) maxScroll)\<rparr>
        in if animationFrame st2 = None
           then st2\<lparr>animationFrame := Some (nextFrameId st2),
                    frameCallbacks := frameCallbacks st2 @ [(nextFrameId st2, loadedImages st2)],
                    nextFrameId := Suc (nextFrameId st2)\<rparr>
           else st2)"

definition handleMouseUp :: "slider \<Rightarrow> slider" where
  "handleMouseUp st = st\<lparr>isDragging := False\<rparr>"

text \<open>The callback given to \<open>requestAnimationFrame\<close>, when the browser runs it.\<close>

definition frame_callback :: "slider \<Rightarrow> nat \<times> image list \<Rightarrow> slider" where
  "frame_callback st cb = (draw (snd cb) st)\<lparr>animationFrame := None\<rparr>"

subsection \<open>Events\<close>

text \<open>
  What can happen to a mounted slider: the three mouse events, a \<open>resize\<close> of the window
  (with the rectangle of the canvas and the pixel density after it), a display frame,
  the parent passing another \<open>images\<close> list, and an image of some request loading (with
  its intrinsic size) or failing.
\<close>

datatype event =
    MouseDown real
  | MouseMove real
  | MouseUp
  | Resize real real real
  | Frame
  | SetImages "string list"
  | ImgLoad nat nat nat nat
  | ImgError nat nat

fun step :: "slider \<Rightarrow> event \<Rightarrow> slider" where
  "step st (MouseDown x) = handleMouseDown x st"
| "step st (MouseMove x) = handleMouseMove x st"
| "step st MouseUp = handleMouseUp st"
| "step st (Resize w h d) =
     (let st' = st\<lparr>rectWidth := w, rectHeight := h, devicePixelRatio := d\<rparr>
      in case resizeListener st' of None \<Rightarrow> st' | Some dpr \<Rightarrow> resizeCanvas dpr st')"
| "step st Frame = (foldl frame_callback st (frameCallbacks st))\<lparr>frameCallbacks := []\<rparr>"
| "step st (SetImages srcs) = loadImages (st\<lparr>images := srcs\<rparr>)"
| "step st (ImgLoad r i w h) =
     (if r < length (requests st) \<and> i < length (req_srcs (requests st ! r))
      then settle_image r i
             (Loaded \<lparr>img_src = req_srcs (requests st ! r) ! i, img_width = w, img_height = h\<rparr>) st
      else st)"
| "step st (ImgError r i) = settle_image r i Failed st"

definition run :: "slider \<Rightarrow> event list \<Rightarrow> slider" where
  "run st evs = foldl step st evs"

text \<open>
  The first render (\<open>backgroundColor\<close> defaults to \<open>#F2F2F2\<close>), before its effects.
\<close>

definition initial :: "string list \<Rightarrow> string option \<Rightarrow> real \<Rightarrow> real \<Rightarrow> real \<Rightarrow> slider" where
  "initial srcs bg w h d =
     \<lparr>images = srcs,
      backgroundColor = (case bg of None \<Rightarrow> ''#F2F2F2'' | Some c \<Rightarrow> c),
      loadedImages = [], isDragging = False, startXRef = 0, scrollRef = 0,
      animationFrame = None, resizeListener = None,
      rectWidth = w, rectHeight = h, devicePixelRatio = d,
      frameCallbacks = [], nextFrameId = 1, requests = [], canvasLog = []\<rparr>"

text \<open>
  Mounting runs the effects of the first render: the load effect calls \<open>loadImages\<close>,
  the resize effect returns at once since nothing is loaded, the mouse effect installs
  the listeners.
\<close>

definition mount :: "string list \<Rightarrow> string option \<Rightarrow> real \<Rightarrow> real \<Rightarrow> real \<Rightarrow> slider" where
  "mount srcs bg w h d = loadImages (initial srcs bg w h d)"

text \<open>
  src/src/App.tsx mounts the slider with four sources and no colour; the canvas fills
  a box of 640 by 400 pixels. The pixel density is the display's.
\<close>

definition App :: "real \<Rightarrow> slider" where
  "App d = mount [''/images/0.jpg'', ''/images/1.jpg'', ''/images/2.jpg'', ''/images/3.jpg'']
             None 640 400 d"

text \<open>The \<open>cursor\<close> style of the canvas in the rendered output.\<close>

definition cursor :: "slider \<Rightarrow> string" where
  "cursor st = (if isDragging st then ''grabbing'' else ''grab'')"

subsection \<open>Notions used in the statements\<close>

text \<open>A slider with two of the sources of the page, in the box of the page.\<close>

abbreviation two_slides :: slider where
  "two_slides \<equiv> mount [''/images/0.jpg'', ''/images/1.jpg''] None 640 400 1"

text \<open>
  The slider has loaded nothing, its offset is 0, no frame is requested and nothing has
  been drawn.
\<close>

definition idle :: "slider \<Rightarrow> bool" where
  "idle st \<longleftrightarrow> loadedImages st = [] \<and> scrollRef st = 0 \<and> animationFrame st = None
     \<and> frameCallbacks st = [] \<and> canvasLog st = [] \<and> resizeListener st = None"

text \<open>No image is loaded before, between and after the events.\<close>

fun unloaded_throughout :: "slider \<Rightarrow> event list \<Rightarrow> bool" where
  "unloaded_throughout st [] = (loadedImages st = [])"
| "unloaded_throughout st (e # evs) =
     (loadedImages st = [] \<and> unloaded_throughout (step st e) evs)"



section \<open>Arithmetic of the model\<close>

lemma jsub_Fin: "jsub (Fin a) (Fin b) = Fin (a - b)"
  by (simp add: jsub_def)

text \<open>Unfolding \<open>binade\<close> on a numeral of steps.\<close>

lemma binade_numeral:
  "binade (numeral k) x =
     (if 2 \<le> x then binade (pred_numeral k) (x / 2) + 1
      else if x < 1 then binade (pred_numeral k) (x * 2) - 1
      else 0)"
  by (simp add: numeral_eq_Suc)

lemmas rounding = to_double_def round_half_even_def pow2_def binade_numeral

section \<open>The render operation\<close>


section \<open>The image fitter\<close>

text \<open>
  C3 (as amended). For an image of positive intrinsic width and height and a target of
  positive width \<open>w\<close> and height \<open>h\<close>, \<open>drawImageFit\<close> fills the target at the given
  horizontal offset and draws the image into a rectangle \<open>(dx, dy, dw, dh)\<close>, relative to
  the target, that lies inside the target, has the ratio of the image, is centred on both
  axes and spans the target on at least one axis; it spans both axes exactly when the
  image and the target have the same ratio.
\<close>

theorem drawImageFit_letterbox:
  assumes "0 < img_width img" and "0 < img_height img" and "0 < w" and "0 < h"
  shows "\<exists>dx dy dw dh.
           drawImageFit img (Fin x) w h bg =
             [FillStyle bg, FillRect (Fin x) 0 w h,
              DrawImage img (Fin (dx + x)) (Fin dy) (Fin dw) (Fin dh)]
         \<and> 0 \<le> dx \<and> dx + dw \<le> w \<and> 0 \<le> dy \<and> dy + dh \<le> h \<and> 0 < dw \<and> 0 < dh
         \<and> dw / dh = real (img_width img) / real (img_height img)
         \<and> dx = (w - dw) / 2 \<and> dy = (h - dh) / 2
         \<and> (dw = w \<or> dh = h)
         \<and> (dw = w \<and> dh = h \<longleftrightarrow> real (img_width img) / real (img_height img) = w / h)"
proof -
  define r where "r = real (img_width img) / real (img_height img)"
  have r0: "0 < r" using assms by (simp add: r_def)
  have ir: "jdiv (Fin (real (img_width img))) (Fin (real (img_height img))) = Fin r"
    using assms by (simp add: r_def)
  have cr: "jdiv (Fin w) (Fin h) = Fin (w / h)"
    using assms by simp
  have "\<exists>dx dy dw dh.
           drawImageFit img (Fin x) w h bg =
             [FillStyle bg, FillRect (Fin x) 0 w h,
              DrawImage img (Fin (dx + x)) (Fin dy) (Fin dw) (Fin dh)]
         \<and> 0 \<le> dx \<and> dx + dw \<le> w \<and> 0 \<le> dy \<and> dy + dh \<le> h \<and> 0 < dw \<and> 0 < dh
         \<and> dw / dh = r
         \<and> dx = (w - dw) / 2 \<and> dy = (h - dh) / 2
         \<and> (dw = w \<or> dh = h)
         \<and> (dw = w \<and> dh = h \<longleftrightarrow> r = w / h)"
  proof (cases "w / h < r")
    case True
    have eq: "drawImageFit img (Fin x) w h bg =
        [FillStyle bg, FillRect (Fin x) 0 w h,
         DrawImage img (Fin (0 + x)) (Fin ((h - w / r) / 2)) (Fin w) (Fin (w / r))]"
      unfolding drawImageFit_def Let_def ir cr using True r0 by (simp add: jsub_Fin)
    from True assms r0 have "w < r * h" by (simp add: pos_divide_less_eq)
    with r0 have lt: "w / r < h" by (simp add: pos_divide_less_eq mult.commute)
    have "0 \<le> (h - w / r) / 2" using lt by simp
    moreover have "0 + w \<le> w" by simp
    moreover have "(h - w / r) / 2 + w / r \<le> h" using lt by (simp add: field_simps)
    moreover have "0 < w / r" using assms r0 by simp
    moreover have "w / (w / r) = r" using assms r0 by simp
    moreover have "w / r \<noteq> h" using lt by simp
    moreover have "r \<noteq> w / h" using True by simp
    moreover have "(0::real) = (w - w) / 2" by simp
    ultimately show ?thesis
      using eq assms(3) by blast
  next
    case False
    have eq: "drawImageFit img (Fin x) w h bg =
        [FillStyle bg, FillRect (Fin x) 0 w h,
         DrawImage img (Fin ((w - h * r) / 2 + x)) (Fin 0) (Fin (h * r)) (Fin h)]"
      unfolding drawImageFit_def Let_def ir cr using False r0 by (simp add: jsub_Fin)
    from False have "r \<le> w / h" by simp
    with assms(4) have "r * h \<le> w" by (simp only: pos_le_divide_eq)
    then have le: "h * r \<le> w" by (simp only: mult.commute)
    have "0 \<le> (w - h * r) / 2" using le by simp
    moreover have "(w - h * r) / 2 + h * r \<le> w" using le by (simp add: field_simps)
    moreover have "0 + h \<le> h" by simp
    moreover have "0 < h * r" using assms r0 by simp
    moreover have "h * r / h = r" using assms by simp
    moreover have "h * r = w \<longleftrightarrow> r = w / h" using assms by (auto simp: field_simps)
    moreover have "(0::real) = (h - h) / 2" and "(0::real) \<le> 0" by simp_all
    ultimately show ?thesis
      using eq assms(4) by blast
  qed
  then show ?thesis by (simp only: r_def)
qed

text \<open>A square image in the 640 by 400 target of the page: it spans the height only.\<close>

theorem drawImageFit_letterbox_witness:
  "\<exists>dx dy dw dh.
     drawImageFit \<lparr>img_src = ''/images/1.jpg'', img_width = 800, img_height = 800\<rparr>
       (Fin (- 60)) 640 400 ''#F2F2F2'' =
       [FillStyle ''#F2F2F2'', FillRect (Fin (- 60)) 0 640 400,
        DrawImage \<lparr>img_src = ''/images/1.jpg'', img_width = 800, img_height = 800\<rparr>
          (Fin (dx + - 60)) (Fin dy) (Fin dw) (Fin dh)]
     \<and> 0 \<le> dx \<and> dx + dw \<le> 640 \<and> 0 \<le> dy \<and> dy + dh \<le> 400 \<and> 0 < dw \<and> 0 < dh
     \<and> dw / dh = 1 \<and> dx = (640 - dw) / 2 \<and> dy = (400 - dh) / 2
     \<and> (dw = 640 \<or> dh = 400)"
  using drawImageFit_letterbox
    [of "\<lparr>img_src = ''/images/1.jpg'', img_width = 800, img_height = 800\<rparr>"
        640 400 "- 60" "''#F2F2F2''"]
  by simp

text \<open>
  C3 as stated asks for exactly one spanned axis. An image of 640 by 400 in a target of
  640 by 400 is drawn at \<open>(0, 0)\<close> with width 640 and height 400: it touches both edges
  on both axes.
\<close>

theorem drawImageFit_spans_both_axes:
  "drawImageFit \<lparr>img_src = ''/images/0.jpg'', img_width = 640, img_height = 400\<rparr>
      (Fin 0) 640 400 ''#F2F2F2'' =
   [FillStyle ''#F2F2F2'', FillRect (Fin 0) 0 640 400,
    DrawImage \<lparr>img_src = ''/images/0.jpg'', img_width = 640, img_height = 400\<rparr>
      (Fin 0) (Fin 0) (Fin 640) (Fin 400)]"
  by (simp add: drawImageFit_def jsub_Fin)

section \<open>Runs and what each operation leaves alone\<close>

lemma run_Nil: "run st [] = st"
  by (simp add: run_def)

lemma run_Cons: "run st (e # evs) = run (step st e) evs"
  by (simp add: run_def)

lemma run_snoc: "run st (evs @ [e]) = step (run st evs) e"
  by (simp add: run_def)

lemma run_append: "run st (evs @ evs') = run (run st evs) evs'"
  by (simp add: run_def)

lemma draw_fields:
  "scrollRef (draw imgs st) = scrollRef st"
  "animationFrame (draw imgs st) = animationFrame st"
  "frameCallbacks (draw imgs st) = frameCallbacks st"
  "loadedImages (draw imgs st) = loadedImages st"
  "requests (draw imgs st) = requests st"
  "resizeListener (draw imgs st) = resizeListener st"
  by (simp_all add: draw_def)

lemma resizeCanvas_fields:
  "scrollRef (resizeCanvas dpr st) = scrollRef st"
  "animationFrame (resizeCanvas dpr st) = animationFrame st"
  "frameCallbacks (resizeCanvas dpr st) = frameCallbacks st"
  "loadedImages (resizeCanvas dpr st) = loadedImages st"
  "requests (resizeCanvas dpr st) = requests st"
  "resizeListener (resizeCanvas dpr st) = resizeListener st"
  by (simp_all add: resizeCanvas_def draw_fields)

lemma setLoadedImages_fields:
  "scrollRef (setLoadedImages loaded st) = scrollRef st"
  "animationFrame (setLoadedImages loaded st) = animationFrame st"
  "frameCallbacks (setLoadedImages loaded st) = frameCallbacks st"
  "loadedImages (setLoadedImages loaded st) = loaded"
  "requests (setLoadedImages loaded st) = requests st"
  by (simp_all add: setLoadedImages_def resize_effect_def Let_def resizeCanvas_fields)

lemma setLoadedImages_listener:
  "resizeListener (setLoadedImages loaded st) =
     (if loaded = [] then None
      else Some (if devicePixelRatio st = 0 then 1 else devicePixelRatio st))"
  by (simp add: setLoadedImages_def resize_effect_def Let_def resizeCanvas_fields)

lemma loadImages_fields:
  "scrollRef (loadImages st) = scrollRef st"
  "animationFrame (loadImages st) = animationFrame st"
  "frameCallbacks (loadImages st) = frameCallbacks st"
  by (simp_all add: loadImages_def Let_def setLoadedImages_fields split: settlement.splits)

lemma settle_image_fields:
  "scrollRef (settle_image r i outcome st) = scrollRef st"
  "animationFrame (settle_image r i outcome st) = animationFrame st"
  "frameCallbacks (settle_image r i outcome st) = frameCallbacks st"
  by (simp_all add: settle_image_def Let_def setLoadedImages_fields split: settlement.splits)

lemma settle_image_skip:
  "\<not> (r < length (requests st) \<and> i < length (req_slots (requests st ! r))
        \<and> req_slots (requests st ! r) ! i = Pending)
   \<Longrightarrow> settle_image r i outcome st = st"
  unfolding settle_image_def by (rule if_not_P)

text \<open>The equations that evaluate a run on given events.\<close>

lemmas evals = mount_def initial_def App_def loadImages_def promise_all_def setLoadedImages_def
  resize_effect_def resizeCanvas_def draw_def drawCurrentImages_def drawImageFit_def
  settle_image_def handleMouseDown_def handleMouseMove_def handleMouseUp_def frame_callback_def
  cursor_def run_def Let_def trunc_def jsub_def rounding

text \<open>The two-slide slider once both images have loaded (the second one first).\<close>

lemma two_slides_loaded:
  "run two_slides (ImgLoad 0 1 800 800 # ImgLoad 0 0 1280 800 # evs) =
   run \<lparr>images = [''/images/0.jpg'', ''/images/1.jpg''], backgroundColor = ''#F2F2F2'',
        loadedImages =
          [\<lparr>img_src = ''/images/0.jpg'', img_width = 1280, img_height = 800\<rparr>,
           \<lparr>img_src = ''/images/1.jpg'', img_width = 800, img_height = 800\<rparr>],
        isDragging = False, startXRef = 0, scrollRef = 0, animationFrame = None,
        resizeListener = Some 1, rectWidth = 640, rectHeight = 400, devicePixelRatio = 1,
        frameCallbacks = [], nextFrameId = 1,
        requests =
          [\<lparr>req_srcs = [''/images/0.jpg'', ''/images/1.jpg''],
            req_slots =
              [Loaded \<lparr>img_src = ''/images/0.jpg'', img_width = 1280, img_height = 800\<rparr>,
               Loaded \<lparr>img_src = ''/images/1.jpg'', img_width = 800, img_height = 800\<rparr>]\<rparr>],
        canvasLog =
          [SetWidth 640, SetHeight 400, SetTransform 1 0 0 1 0 0, Scale 1 1,
           ClearRect 0 0 640 400, FillStyle ''#F2F2F2'', FillRect (Fin 0) 0 640 400,
           DrawImage \<lparr>img_src = ''/images/0.jpg'', img_width = 1280, img_height = 800\<rparr>
             (Fin 0) (Fin 0) (Fin 640) (Fin 400),
           FillStyle ''#F2F2F2'', FillRect (Fin 640) 0 640 400,
           DrawImage \<lparr>img_src = ''/images/1.jpg'', img_width = 800, img_height = 800\<rparr>
             (Fin 760) (Fin 0) (Fin 400) (Fin 400)]\<rparr> evs"
  by (simp add: evals)

section \<open>The drag controller\<close>

lemma handleMouseMove_ignored:
  "\<not> isDragging st \<or> loadedImages st = [] \<Longrightarrow> handleMouseMove x st = st"
  by (auto simp: handleMouseMove_def)

lemma handleMouseMove_fields:
  "isDragging (handleMouseMove x st) = isDragging st"
  "loadedImages (handleMouseMove x st) = loadedImages st"
  "rectWidth (handleMouseMove x st) = rectWidth st"
  by (simp_all add: handleMouseMove_def Let_def)

lemma handleMouseMove_scroll:
  assumes "isDragging st" and "loadedImages st \<noteq> []"
  shows "scrollRef (handleMouseMove x st) =
           max 0 (min (scrollRef st - (x - startXRef st))
                      ((real (length (loadedImages st)) - 1) * rectWidth st))"
    and "startXRef (handleMouseMove x st) = x"
  using assms by (simp_all add: handleMouseMove_def Let_def)

lemma run_moves_fields:
  "isDragging (run st (map MouseMove xs)) = isDragging st"
  "loadedImages (run st (map MouseMove xs)) = loadedImages st"
  "rectWidth (run st (map MouseMove xs)) = rectWidth st"
  by (induction xs arbitrary: st) (simp_all add: run_Nil run_Cons handleMouseMove_fields)

text \<open>
  C5. In the Dragging state with at least one image loaded, a pointer move to \<open>x\<close>
  computes \<open>dx = x - startXRef\<close>, stores \<open>x\<close> as the last recorded position, and stores
  the proposed offset \<open>scrollRef - dx\<close> clamped to \<open>[0, maxScroll]\<close>; when the pointer moved
  left (\<open>dx < 0\<close>) the proposed offset is strictly above the current one.
\<close>

theorem drag_move_proposes_offset:
  assumes "isDragging st" and "loadedImages st \<noteq> []"
  shows "let dx = x - startXRef st;
             proposed = scrollRef st - dx;
             maxScroll = (real (length (loadedImages st)) - 1) * rectWidth st;
             st' = step st (MouseMove x)
         in startXRef st' = x
          \<and> scrollRef st' = max 0 (min proposed maxScroll)
          \<and> (dx < 0 \<longrightarrow> scrollRef st < proposed)"
  using assms by (simp add: Let_def handleMouseMove_scroll)

text \<open>
  Both images loaded, pointer down at 700 and moved left to 600: the offset goes from 0
  to 100.
\<close>

theorem drag_move_proposes_offset_witness:
  "startXRef (run two_slides
      [ImgLoad 0 1 800 800, ImgLoad 0 0 1280 800, MouseDown 700, MouseMove 600]) = 600
   \<and> scrollRef (run two_slides
      [ImgLoad 0 1 800 800, ImgLoad 0 0 1280 800, MouseDown 700, MouseMove 600]) = 100
   \<and> scrollRef (run two_slides
      [ImgLoad 0 1 800 800, ImgLoad 0 0 1280 800, MouseDown 700]) < 100"
  using drag_move_proposes_offset
    [of "run two_slides [ImgLoad 0 1 800 800, ImgLoad 0 0 1280 800, MouseDown 700]" 600]
  unfolding two_slides_loaded
  by (simp add: run_def handleMouseDown_def Let_def)

text \<open>
  C2. With \<open>N \<ge> 1\<close> loaded images and a slide width \<open>w > 0\<close>, take any finite sequence
  \<open>xs\<close> of pointer positions reported while dragging (any sequence of deltas is the
  sequence of differences of such positions). The \<open>k\<close>-th move stores the proposed offset
  clamped by \<open>max 0 (min _ ((N - 1) * w))\<close>, and the stored offset lies in
  \<open>[0, (N - 1) * w]\<close>.
\<close>

theorem drag_keeps_offset_in_range:
  assumes "isDragging st" and "1 \<le> length (loadedImages st)" and "0 < rectWidth st"
  shows "\<forall>k < length xs.
           (let before = run st (map MouseMove (take k xs));
                after = run st (map MouseMove (take (Suc k) xs));
                maxScroll = (real (length (loadedImages st)) - 1) * rectWidth st
            in after = step before (MouseMove (xs ! k))
             \<and> scrollRef after =
                 max 0 (min (scrollRef before - (xs ! k - startXRef before)) maxScroll)
             \<and> 0 \<le> scrollRef after \<and> scrollRef after \<le> maxScroll)"
proof (intro allI impI)
  fix k assume k: "k < length xs"
  define s where "s = run st (map MouseMove (take k xs))"
  have d: "isDragging s" and l: "loadedImages s = loadedImages st"
    and w: "rectWidth s = rectWidth st"
    using assms by (simp_all add: s_def run_moves_fields)
  have ne: "loadedImages s \<noteq> []" using assms(2) l by auto
  have r: "run st (map MouseMove (take (Suc k) xs)) = step s (MouseMove (xs ! k))"
    using k by (simp add: take_Suc_conv_app_nth s_def run_snoc)
  have m: "0 \<le> (real (length (loadedImages st)) - 1) * rectWidth st"
    using assms(2,3) by simp
  have v: "scrollRef (step s (MouseMove (xs ! k))) =
      max 0 (min (scrollRef s - (xs ! k - startXRef s))
                 ((real (length (loadedImages st)) - 1) * rectWidth st))"
    using handleMouseMove_scroll(1) [OF d ne] by (simp add: l w)
  show "let before = run st (map MouseMove (take k xs));
            after = run st (map MouseMove (take (Suc k) xs));
            maxScroll = (real (length (loadedImages st)) - 1) * rectWidth st
        in after = step before (MouseMove (xs ! k))
         \<and> scrollRef after =
             max 0 (min (scrollRef before - (xs ! k - startXRef before)) maxScroll)
         \<and> 0 \<le> scrollRef after \<and> scrollRef after \<le> maxScroll"
    unfolding Let_def s_def [symmetric] r v using m by simp
qed

text \<open>Two slides of width 640: a move far to the left stops at 640.\<close>

theorem drag_keeps_offset_in_range_witness:
  "0 \<le> scrollRef (run two_slides
      [ImgLoad 0 1 800 800, ImgLoad 0 0 1280 800, MouseDown 700, MouseMove 600, MouseMove (- 3000)])
   \<and> scrollRef (run two_slides
      [ImgLoad 0 1 800 800, ImgLoad 0 0 1280 800, MouseDown 700, MouseMove 600, MouseMove (- 3000)])
       \<le> (2 - 1) * 640"
  using drag_keeps_offset_in_range
    [of "run two_slides [ImgLoad 0 1 800 800, ImgLoad 0 0 1280 800, MouseDown 700]"
        "[600, - 3000]", THEN spec, of 1]
  unfolding two_slides_loaded
  by (simp add: run_def handleMouseDown_def Let_def)

section \<open>A drag before any image has loaded\<close>

lemma promise_all_replicate:
  "promise_all (replicate n Pending) = (if n = 0 then Fulfilled [] else Unsettled)"
  by (cases n) (simp_all add: promise_all_def list_ex_iff)

lemma idle_loadImages: "idle st \<Longrightarrow> idle (loadImages st)"
  by (simp add: idle_def loadImages_def Let_def setLoadedImages_def resize_effect_def
        promise_all_replicate)

lemma idle_settle_image:
  assumes "idle st" and "loadedImages (settle_image r i outcome st) = []"
  shows "idle (settle_image r i outcome st)"
proof (cases "r < length (requests st) \<and> i < length (req_slots (requests st ! r))
        \<and> req_slots (requests st ! r) ! i = Pending")
  case False
  then show ?thesis using assms(1) by (simp add: settle_image_skip)
next
  case True
  define st' where "st' = st\<lparr>requests := (requests st)
      [r := (requests st ! r)\<lparr>req_slots := (req_slots (requests st ! r))[i := outcome]\<rparr>]\<rparr>"
  have i': "idle st'" using assms(1) by (simp add: idle_def st'_def)
  have eq: "settle_image r i outcome st =
      (if promise_all (req_slots (requests st ! r)) = Unsettled
       then case promise_all ((req_slots (requests st ! r))[i := outcome]) of
              Fulfilled loaded \<Rightarrow> setLoadedImages loaded st' | _ \<Rightarrow> st'
       else st')"
    unfolding st'_def using True by (simp add: settle_image_def Let_def)
  show ?thesis
  proof (cases "promise_all (req_slots (requests st ! r)) = Unsettled")
    case False
    with eq i' show ?thesis by simp
  next
    case u: True
    show ?thesis
    proof (cases "promise_all ((req_slots (requests st ! r))[i := outcome])")
      case (Fulfilled loaded)
      with eq u have c: "settle_image r i outcome st = setLoadedImages loaded st'" by simp
      with assms(2) have "loaded = []" by (simp add: setLoadedImages_fields)
      with c i' show ?thesis
        by (simp add: idle_def setLoadedImages_def resize_effect_def)
    next
      case Unsettled
      with eq u i' show ?thesis by simp
    next
      case Rejected
      with eq u i' show ?thesis by simp
    qed
  qed
qed

lemma idle_step:
  assumes "idle st" and "loadedImages (step st e) = []"
  shows "idle (step st e)"
proof (cases e)
  case (SetImages srcs)
  have "idle (st\<lparr>images := srcs\<rparr>)" using assms(1) by (simp add: idle_def)
  then show ?thesis using SetImages by (simp add: idle_loadImages)
next
  case (ImgLoad r i w h)
  then show ?thesis using assms by (auto intro: idle_settle_image)
next
  case (ImgError r i)
  then show ?thesis using assms by (auto intro: idle_settle_image)
qed (use assms(1) in \<open>auto simp: idle_def handleMouseDown_def handleMouseUp_def
      handleMouseMove_def\<close>)

lemma idle_run:
  assumes "idle st" and "unloaded_throughout st evs"
  shows "idle (run st evs)"
  using assms
proof (induction evs arbitrary: st)
  case Nil
  then show ?case by (simp add: run_Nil)
next
  case (Cons e evs)
  from Cons.prems(2) have u: "unloaded_throughout (step st e) evs" by simp
  then have "loadedImages (step st e) = []" by (cases evs) simp_all
  with Cons.prems(1) have "idle (step st e)" by (rule idle_step)
  then have "idle (run (step st e) evs)" using u by (rule Cons.IH)
  then show ?case by (simp add: run_Cons)
qed

lemma idle_mount: "idle (mount srcs bg w h d)"
  unfolding mount_def by (rule idle_loadImages) (simp add: idle_def initial_def)

text \<open>
  C10 (as amended). When no image is loaded, a pointer-down still enters the Dragging
  state (the cursor becomes \<open>grabbing\<close>), and a pointer move that arrives while no image
  is loaded changes nothing; after a pointer-down and any moves the state is the state
  before with \<open>isDragging\<close> set and the position recorded, so the scroll offset, the
  pending frame requests and the canvas are as they were. From mounting on, as long as
  no image is loaded after any of the events (pointer events, resizes, frames, failing
  images and images of a request that is not complete, in any order), the offset is 0,
  no frame is requested and nothing is drawn.
\<close>

theorem premature_drag_is_noop:
  "(loadedImages st = [] \<longrightarrow>
      step st (MouseMove y) = st
      \<and> (let st' = run st (MouseDown x # map MouseMove xs)
         in st' = st\<lparr>isDragging := True, startXRef := x\<rparr>
          \<and> isDragging st' \<and> cursor st' = ''grabbing''
          \<and> scrollRef st' = scrollRef st
          \<and> animationFrame st' = animationFrame st
          \<and> frameCallbacks st' = frameCallbacks st
          \<and> canvasLog st' = canvasLog st))
   \<and> (unloaded_throughout (mount srcs bg w h d) evs \<longrightarrow>
      (let st' = run (mount srcs bg w h d) evs
       in loadedImages st' = [] \<and> scrollRef st' = 0 \<and> animationFrame st' = None
        \<and> frameCallbacks st' = [] \<and> canvasLog st' = []))"
proof -
  have moves: "run s (map MouseMove xs) = s" if "loadedImages s = []" for s
    using that by (induction xs) (simp_all add: run_Nil run_Cons handleMouseMove_ignored)
  have noop: "run s (MouseDown x # map MouseMove xs) = s\<lparr>isDragging := True, startXRef := x\<rparr>"
    if "loadedImages s = []" for s
    using that moves by (simp add: run_Cons handleMouseDown_def)
  have a: "loadedImages st = [] \<longrightarrow>
      step st (MouseMove y) = st
      \<and> (let st' = run st (MouseDown x # map MouseMove xs)
         in st' = st\<lparr>isDragging := True, startXRef := x\<rparr>
          \<and> isDragging st' \<and> cursor st' = ''grabbing''
          \<and> scrollRef st' = scrollRef st
          \<and> animationFrame st' = animationFrame st
          \<and> frameCallbacks st' = frameCallbacks st
          \<and> canvasLog st' = canvasLog st)"
    by (simp add: noop cursor_def handleMouseMove_ignored)
  have b: "unloaded_throughout (mount srcs bg w h d) evs \<longrightarrow>
      (let st' = run (mount srcs bg w h d) evs
       in loadedImages st' = [] \<and> scrollRef st' = 0 \<and> animationFrame st' = None
        \<and> frameCallbacks st' = [] \<and> canvasLog st' = [])"
  proof
    assume "unloaded_throughout (mount srcs bg w h d) evs"
    with idle_mount have "idle (run (mount srcs bg w h d) evs)" by (rule idle_run)
    then show "let st' = run (mount srcs bg w h d) evs
       in loadedImages st' = [] \<and> scrollRef st' = 0 \<and> animationFrame st' = None
        \<and> frameCallbacks st' = [] \<and> canvasLog st' = []"
      by (simp add: idle_def)
  qed
  from a b show ?thesis by blast
qed

text \<open>
  The page just mounted: the window is resized, the pointer goes down, one image loads
  and another fails while the pointer moves.
\<close>

theorem premature_drag_is_noop_witness:
  "loadedImages (App 1) = []
   \<and> step (App 1) (MouseMove 200) = App 1
   \<and> run (App 1) [MouseDown 300, MouseMove 200, MouseMove 100]
       = (App 1)\<lparr>isDragging := True, startXRef := 300\<rparr>
   \<and> unloaded_throughout (App 1)
        [Resize 800 500 2, MouseDown 300, ImgLoad 0 0 1280 800, MouseMove 200, ImgError 0 1,
         MouseMove 100]
   \<and> scrollRef (run (App 1)
        [Resize 800 500 2, MouseDown 300, ImgLoad 0 0 1280 800, MouseMove 200, ImgError 0 1,
         MouseMove 100]) = 0
   \<and> animationFrame (run (App 1)
        [Resize 800 500 2, MouseDown 300, ImgLoad 0 0 1280 800, MouseMove 200, ImgError 0 1,
         MouseMove 100]) = None
   \<and> frameCallbacks (run (App 1)
        [Resize 800 500 2, MouseDown 300, ImgLoad 0 0 1280 800, MouseMove 200, ImgError 0 1,
         MouseMove 100]) = []
   \<and> canvasLog (run (App 1)
        [Resize 800 500 2, MouseDown 300, ImgLoad 0 0 1280 800, MouseMove 200, ImgError 0 1,
         MouseMove 100]) = []"
proof -
  have e: "loadedImages (App 1) = []"
    by (simp add: App_def mount_def initial_def loadImages_def promise_all_def Let_def)
  have u: "unloaded_throughout (App 1)
        [Resize 800 500 2, MouseDown 300, ImgLoad 0 0 1280 800, MouseMove 200, ImgError 0 1,
         MouseMove 100]"
    by (simp add: evals)
  show ?thesis
    using premature_drag_is_noop
      [of "App 1" 200 300 "[200, 100]"
          "[''/images/0.jpg'', ''/images/1.jpg'', ''/images/2.jpg'', ''/images/3.jpg'']"
          None 640 400 1
          "[Resize 800 500 2, MouseDown 300, ImgLoad 0 0 1280 800, MouseMove 200, ImgError 0 1,
            MouseMove 100]"] e u
    by (simp add: Let_def App_def)
qed

text \<open>
  C10 as stated fails when the images load during the premature drag: the pointer goes
  down at 300 on the page just mounted, the four images load, and the move to 100 is
  processed from the position recorded at the pointer-down. The offset becomes 200 and a
  frame is requested.
\<close>

theorem premature_drag_moves_after_load:
  "scrollRef (run (App 1)
      [MouseDown 300, ImgLoad 0 0 1280 800, ImgLoad 0 1 800 800, ImgLoad 0 2 1600 400,
       ImgLoad 0 3 300 900, MouseMove 100]) = 200
   \<and> animationFrame (run (App 1)
      [MouseDown 300, ImgLoad 0 0 1280 800, ImgLoad 0 1 800 800, ImgLoad 0 2 1600 400,
       ImgLoad 0 3 300 900, MouseMove 100]) = Some 1"
  by (simp add: evals)

section \<open>The scroll offset in reachable states\<close>

lemma frame_callbacks_scroll:
  "scrollRef (foldl frame_callback st cbs) = scrollRef st"
  by (induction cbs arbitrary: st) (simp_all add: frame_callback_def draw_fields)

lemma step_scroll_unchanged:
  assumes "\<forall>x. e \<noteq> MouseMove x"
  shows "scrollRef (step st e) = scrollRef st"
  using assms
  by (cases e)
     (simp_all add: handleMouseDown_def handleMouseUp_def resizeCanvas_fields Let_def
        frame_callbacks_scroll loadImages_fields settle_image_fields split: option.splits)

lemma handleMouseMove_nonneg:
  "0 \<le> scrollRef st \<Longrightarrow> 0 \<le> scrollRef (handleMouseMove x st)"
  by (simp add: handleMouseMove_def Let_def)

lemma step_scroll_nonneg: "0 \<le> scrollRef st \<Longrightarrow> 0 \<le> scrollRef (step st e)"
proof (cases "\<exists>x. e = MouseMove x")
  case True
  assume "0 \<le> scrollRef st"
  with True show ?thesis by (auto simp: handleMouseMove_nonneg)
next
  case False
  assume "0 \<le> scrollRef st"
  with False show ?thesis by (simp add: step_scroll_unchanged)
qed

lemma mount_scroll: "scrollRef (mount srcs bg w h d) = 0"
  by (simp add: mount_def initial_def loadImages_fields)

lemma run_scroll_nonneg: "0 \<le> scrollRef st \<Longrightarrow> 0 \<le> scrollRef (run st evs)"
  by (induction evs arbitrary: st) (simp_all add: run_Nil run_Cons step_scroll_nonneg)

text \<open>
  What holds of the offset in every state reached from mounting: it is not negative. A
  pointer move that is processed (Dragging, an image loaded, the width not negative)
  leaves it at most \<open>(N - 1)\<close> times the width of that moment, and no other event writes
  it.
\<close>

lemma scroll_bounds_and_writers:
  "0 \<le> scrollRef (run (mount srcs bg w h d) evs)
   \<and> (isDragging st \<and> loadedImages st \<noteq> [] \<and> 0 \<le> rectWidth st \<longrightarrow>
        scrollRef (step st (MouseMove x)) \<le> (real (length (loadedImages st)) - 1) * rectWidth st)
   \<and> ((\<forall>x. e \<noteq> MouseMove x) \<longrightarrow> scrollRef (step st e) = scrollRef st)"
proof -
  have a: "0 \<le> scrollRef (run (mount srcs bg w h d) evs)"
    by (rule run_scroll_nonneg) (simp add: mount_scroll)
  have b: "isDragging st \<and> loadedImages st \<noteq> [] \<and> 0 \<le> rectWidth st \<longrightarrow>
        scrollRef (step st (MouseMove x)) \<le> (real (length (loadedImages st)) - 1) * rectWidth st"
  proof
    assume h: "isDragging st \<and> loadedImages st \<noteq> [] \<and> 0 \<le> rectWidth st"
    then have "1 \<le> length (loadedImages st)" by (cases "loadedImages st") simp_all
    with h have "0 \<le> (real (length (loadedImages st)) - 1) * rectWidth st" by simp
    with h show "scrollRef (step st (MouseMove x)) \<le> (real (length (loadedImages st)) - 1) * rectWidth st"
      by (simp add: handleMouseMove_def Let_def)
  qed
  have c: "(\<forall>x. e \<noteq> MouseMove x) \<longrightarrow> scrollRef (step st e) = scrollRef st"
    by (simp add: step_scroll_unchanged)
  from a b c show ?thesis by blast
qed

text \<open>
  C7. The upper bound of the claim does not survive a resize. Two slides at width 640
  are dragged to the last slide, offset 640, and the window is resized to width 320. The
  resize handler keeps the offset: it is 640 with two images loaded and width 320, above
  \<open>(2 - 1) * 320\<close>. The redraw of that handler then finds no slide at index 2 and paints
  none: after the four calls that size the canvas the log has the \<open>clearRect\<close> only. The
  mouse handler clamps to the width it reads: the next processed move, even one that
  does not move the pointer, brings the offset to 320.
\<close>

theorem scroll_exceeds_bound_after_resize:
  "\<not> scrollRef (run two_slides
        [ImgLoad 0 1 800 800, ImgLoad 0 0 1280 800, MouseDown 700, MouseMove 0, MouseUp,
         Resize 320 200 1])
      \<le> (real (length (loadedImages (run two_slides
        [ImgLoad 0 1 800 800, ImgLoad 0 0 1280 800, MouseDown 700, MouseMove 0, MouseUp,
         Resize 320 200 1]))) - 1)
        * rectWidth (run two_slides
        [ImgLoad 0 1 800 800, ImgLoad 0 0 1280 800, MouseDown 700, MouseMove 0, MouseUp,
         Resize 320 200 1])
   \<and> scrollRef (run two_slides
        [ImgLoad 0 1 800 800, ImgLoad 0 0 1280 800, MouseDown 700, MouseMove 0, MouseUp,
         Resize 320 200 1]) = 640
   \<and> canvasLog (run two_slides
        [ImgLoad 0 1 800 800, ImgLoad 0 0 1280 800, MouseDown 700, MouseMove 0, MouseUp,
         Resize 320 200 1])
      = canvasLog (run two_slides
          [ImgLoad 0 1 800 800, ImgLoad 0 0 1280 800, MouseDown 700, MouseMove 0, MouseUp])
        @ [SetWidth 320, SetHeight 200, SetTransform 1 0 0 1 0 0, Scale 1 1,
           ClearRect 0 0 320 200]
   \<and> scrollRef (run two_slides
        [ImgLoad 0 1 800 800, ImgLoad 0 0 1280 800, MouseDown 700, MouseMove 0, MouseUp,
         Resize 320 200 1, MouseDown 50, MouseMove 50]) = 320"
  unfolding two_slides_loaded
  by (simp add: run_def handleMouseDown_def handleMouseMove_def handleMouseUp_def Let_def
        resizeCanvas_def draw_def drawCurrentImages_def rounding trunc_def)

section \<open>Frame coalescing\<close>

lemma mount_frames:
  "animationFrame (mount srcs bg w h d) = None" "frameCallbacks (mount srcs bg w h d) = []"
  by (simp_all add: mount_def initial_def loadImages_fields)

lemma step_frames:
  assumes "map fst (frameCallbacks st) = (case animationFrame st of None \<Rightarrow> [] | Some n \<Rightarrow> [n])"
  shows "map fst (frameCallbacks (step st e)) =
           (case animationFrame (step st e) of None \<Rightarrow> [] | Some n \<Rightarrow> [n])"
proof (cases e)
  case (MouseMove x)
  then show ?thesis using assms
    by (auto simp: handleMouseMove_def Let_def split: option.splits)
next
  case Frame
  show ?thesis
  proof (cases "animationFrame st")
    case None
    with assms Frame show ?thesis by simp
  next
    case (Some n)
    with assms obtain imgs where "frameCallbacks st = [(n, imgs)]" by auto
    with Frame show ?thesis by (simp add: frame_callback_def)
  qed
qed (use assms in \<open>simp_all add: handleMouseDown_def handleMouseUp_def resizeCanvas_fields Let_def
        loadImages_fields settle_image_fields split: option.splits\<close>)

lemma run_frames:
  assumes "map fst (frameCallbacks st) = (case animationFrame st of None \<Rightarrow> [] | Some n \<Rightarrow> [n])"
  shows "map fst (frameCallbacks (run st evs)) =
           (case animationFrame (run st evs) of None \<Rightarrow> [] | Some n \<Rightarrow> [n])"
  using assms by (induction evs arbitrary: st) (simp_all add: run_Nil run_Cons step_frames)

text \<open>
  C8. In every state reached from mounting, the browser holds at most one frame callback
  of the slider, and holds one exactly when \<open>animationFrame\<close> is set. While
  \<open>animationFrame\<close> is set a pointer move requests no further frame. When the pending
  callback runs, it draws with the scroll offset and the rectangle of that moment (the
  callback carries no offset of its own) and clears \<open>animationFrame\<close>.
\<close>

theorem one_pending_frame:
  "length (frameCallbacks (run (mount srcs bg w h d) evs)) \<le> 1
   \<and> (animationFrame (run (mount srcs bg w h d) evs) = None
        \<longleftrightarrow> frameCallbacks (run (mount srcs bg w h d) evs) = [])
   \<and> (animationFrame st \<noteq> None \<longrightarrow>
        frameCallbacks (step st (MouseMove x)) = frameCallbacks st
        \<and> animationFrame (step st (MouseMove x)) = animationFrame st)
   \<and> (frameCallbacks st = [(n, imgs)] \<longrightarrow>
        step st Frame =
          st\<lparr>canvasLog := canvasLog st
                @ drawCurrentImages imgs (backgroundColor st) (scrollRef st)
                    (rectWidth st) (rectHeight st),
             animationFrame := None, frameCallbacks := []\<rparr>)"
proof -
  let ?s = "run (mount srcs bg w h d) evs"
  have inv: "map fst (frameCallbacks ?s) = (case animationFrame ?s of None \<Rightarrow> [] | Some n \<Rightarrow> [n])"
    by (rule run_frames) (simp add: mount_frames)
  have "length (map fst (frameCallbacks ?s)) \<le> 1"
    unfolding inv by (simp split: option.splits)
  then have a: "length (frameCallbacks ?s) \<le> 1" by simp
  have b: "animationFrame ?s = None \<longleftrightarrow> frameCallbacks ?s = []"
    using inv by (auto split: option.splits)
  have c: "animationFrame st \<noteq> None \<longrightarrow>
        frameCallbacks (step st (MouseMove x)) = frameCallbacks st
        \<and> animationFrame (step st (MouseMove x)) = animationFrame st"
    by (auto simp: handleMouseMove_def Let_def)
  have e: "frameCallbacks st = [(n, imgs)] \<longrightarrow>
        step st Frame =
          st\<lparr>canvasLog := canvasLog st
                @ drawCurrentImages imgs (backgroundColor st) (scrollRef st)
                    (rectWidth st) (rectHeight st),
             animationFrame := None, frameCallbacks := []\<rparr>"
    by (simp add: frame_callback_def draw_def)
  from a b c e show ?thesis by blast
qed

text \<open>
  Two moves in one frame: the first (offset 10) requests the frame, the second
  (offset 600) and a third request nothing, and the frame draws at offset 600.
\<close>

theorem one_pending_frame_witness:
  "length (frameCallbacks (run two_slides
      [ImgLoad 0 1 800 800, ImgLoad 0 0 1280 800, MouseDown 700, MouseMove 690, MouseMove 100])) \<le> 1
   \<and> animationFrame (run two_slides
      [ImgLoad 0 1 800 800, ImgLoad 0 0 1280 800, MouseDown 700, MouseMove 690, MouseMove 100]) = Some 1
   \<and> frameCallbacks (run two_slides
      [ImgLoad 0 1 800 800, ImgLoad 0 0 1280 800, MouseDown 700, MouseMove 690, MouseMove 100,
       MouseMove 50])
      = frameCallbacks (run two_slides
      [ImgLoad 0 1 800 800, ImgLoad 0 0 1280 800, MouseDown 700, MouseMove 690, MouseMove 100])
   \<and> scrollRef (run two_slides
      [ImgLoad 0 1 800 800, ImgLoad 0 0 1280 800, MouseDown 700, MouseMove 690]) = 10
   \<and> scrollRef (run two_slides
      [ImgLoad 0 1 800 800, ImgLoad 0 0 1280 800, MouseDown 700, MouseMove 690, MouseMove 100]) = 600
   \<and> canvasLog (run two_slides
      [ImgLoad 0 1 800 800, ImgLoad 0 0 1280 800, MouseDown 700, MouseMove 690, MouseMove 100, Frame])
      = canvasLog (run two_slides
          [ImgLoad 0 1 800 800, ImgLoad 0 0 1280 800, MouseDown 700, MouseMove 690, MouseMove 100])
        @ drawCurrentImages
            [\<lparr>img_src = ''/images/0.jpg'', img_width = 1280, img_height = 800\<rparr>,
             \<lparr>img_src = ''/images/1.jpg'', img_width = 800, img_height = 800\<rparr>]
            ''#F2F2F2'' 600 640 400"
  using one_pending_frame
    [of "[''/images/0.jpg'', ''/images/1.jpg'']" None 640 400 1
        "[ImgLoad 0 1 800 800, ImgLoad 0 0 1280 800, MouseDown 700, MouseMove 690, MouseMove 100]"
        "run two_slides
           [ImgLoad 0 1 800 800, ImgLoad 0 0 1280 800, MouseDown 700, MouseMove 690, MouseMove 100]"
        50 1
        "[\<lparr>img_src = ''/images/0.jpg'', img_width = 1280, img_height = 800\<rparr>,
          \<lparr>img_src = ''/images/1.jpg'', img_width = 800, img_height = 800\<rparr>]"]
  unfolding two_slides_loaded
  by (simp add: run_def handleMouseDown_def handleMouseMove_def Let_def)

section \<open>Resizing\<close>

lemma handleMouseMove_listener:
  "resizeListener (handleMouseMove x st) = resizeListener st"
  by (simp add: handleMouseMove_def Let_def)

lemma frame_callbacks_loaded:
  "loadedImages (foldl frame_callback st cbs) = loadedImages st"
  "resizeListener (foldl frame_callback st cbs) = resizeListener st"
  by (induction cbs arbitrary: st) (simp_all add: frame_callback_def draw_fields)

lemma setLoadedImages_listener_iff:
  "resizeListener (setLoadedImages loaded st) = None \<longleftrightarrow> loaded = []"
  by (simp add: setLoadedImages_listener)

lemma loadImages_listener_iff:
  assumes "resizeListener st = None \<longleftrightarrow> loadedImages st = []"
  shows "resizeListener (loadImages st) = None \<longleftrightarrow> loadedImages (loadImages st) = []"
  using assms
  by (simp add: loadImages_def Let_def setLoadedImages_fields setLoadedImages_listener
        split: settlement.splits)

lemma settle_image_listener_iff:
  assumes "resizeListener st = None \<longleftrightarrow> loadedImages st = []"
  shows "resizeListener (settle_image r i outcome st) = None
           \<longleftrightarrow> loadedImages (settle_image r i outcome st) = []"
  using assms
  by (simp add: settle_image_def Let_def setLoadedImages_fields setLoadedImages_listener
        split: settlement.splits)

lemma step_listener_iff:
  assumes "resizeListener st = None \<longleftrightarrow> loadedImages st = []"
  shows "resizeListener (step st e) = None \<longleftrightarrow> loadedImages (step st e) = []"
  using assms
  by (cases e)
     (auto simp: handleMouseDown_def handleMouseUp_def handleMouseMove_listener
        handleMouseMove_fields resizeCanvas_fields Let_def frame_callbacks_loaded
        loadImages_listener_iff settle_image_listener_iff split: option.splits)

lemma run_listener_iff:
  assumes "resizeListener st = None \<longleftrightarrow> loadedImages st = []"
  shows "resizeListener (run st evs) = None \<longleftrightarrow> loadedImages (run st evs) = []"
  using assms by (induction evs arbitrary: st) (simp_all add: run_Nil run_Cons step_listener_iff)

lemma mount_listener_iff:
  "resizeListener (mount srcs bg w h d) = None \<longleftrightarrow> loadedImages (mount srcs bg w h d) = []"
  unfolding mount_def by (rule loadImages_listener_iff) (simp add: initial_def)

text \<open>
  What the resize listener does. In every state reached from mounting it is installed
  exactly when images are loaded. Committing a non-empty image list installs it with the
  pixel density read at that moment (\<open>window.devicePixelRatio || 1\<close>). On a resize the
  installed listener sets the backing store to the new logical size times the density
  of its closure, resets the transform, scales by that density and redraws once with the
  new size and the scroll offset it finds; everything else, the scroll offset included,
  is unchanged.
\<close>

lemma resize_listener_redraws_once:
  "(resizeListener (run (mount srcs bg w0 h0 d0) evs) = None
      \<longleftrightarrow> loadedImages (run (mount srcs bg w0 h0 d0) evs) = [])
   \<and> (loaded \<noteq> [] \<longrightarrow>
      resizeListener (setLoadedImages loaded st0) =
        Some (if devicePixelRatio st0 = 0 then 1 else devicePixelRatio st0))
   \<and> (resizeListener st = Some dpr \<longrightarrow>
      step st (Resize w h d) =
        st\<lparr>rectWidth := w, rectHeight := h, devicePixelRatio := d,
           canvasLog := canvasLog st
             @ [SetWidth (w * dpr), SetHeight (h * dpr), SetTransform 1 0 0 1 0 0, Scale dpr dpr]
             @ drawCurrentImages (loadedImages st) (backgroundColor st) (scrollRef st) w h\<rparr>)"
proof -
  have "resizeListener (run (mount srcs bg w0 h0 d0) evs) = None
      \<longleftrightarrow> loadedImages (run (mount srcs bg w0 h0 d0) evs) = []"
    using mount_listener_iff by (rule run_listener_iff)
  then show ?thesis
    by (simp add: setLoadedImages_listener resizeCanvas_def draw_def)
qed

text \<open>
  C9. The density of the closure is the one read when the images were committed, not
  the one of the resize. Two slides are loaded at density 1 and dragged to offset 100;
  the window is then resized with the density becoming 2, the canvas keeping its 640 by
  400. The handler redraws once and keeps the offset at 100, but it sets the backing
  store to 640 by 400 and scales by 1, where logical size times density is 1280 by 800
  and the scale 2. The same slider mounted at density 2 does size the canvas to 1280 by
  800 and scale by 2 when its images are committed.
\<close>

theorem resize_uses_stale_density:
  "devicePixelRatio (run two_slides
      [ImgLoad 0 1 800 800, ImgLoad 0 0 1280 800, MouseDown 700, MouseMove 600,
       Resize 640 400 2]) = 2
   \<and> scrollRef (run two_slides
      [ImgLoad 0 1 800 800, ImgLoad 0 0 1280 800, MouseDown 700, MouseMove 600,
       Resize 640 400 2]) = 100
   \<and> canvasLog (run two_slides
      [ImgLoad 0 1 800 800, ImgLoad 0 0 1280 800, MouseDown 700, MouseMove 600,
       Resize 640 400 2])
      = canvasLog (run two_slides
          [ImgLoad 0 1 800 800, ImgLoad 0 0 1280 800, MouseDown 700, MouseMove 600])
        @ [SetWidth 640, SetHeight 400, SetTransform 1 0 0 1 0 0, Scale 1 1]
        @ drawCurrentImages
            [\<lparr>img_src = ''/images/0.jpg'', img_width = 1280, img_height = 800\<rparr>,
             \<lparr>img_src = ''/images/1.jpg'', img_width = 800, img_height = 800\<rparr>]
            ''#F2F2F2'' 100 640 400
   \<and> take 4 (canvasLog (run (mount [''/images/0.jpg'', ''/images/1.jpg''] None 640 400 2)
      [ImgLoad 0 1 800 800, ImgLoad 0 0 1280 800]))
      = [SetWidth 1280, SetHeight 800, SetTransform 1 0 0 1 0 0, Scale 2 2]"
proof -
  have "take 4 (canvasLog (run (mount [''/images/0.jpg'', ''/images/1.jpg''] None 640 400 2)
      [ImgLoad 0 1 800 800, ImgLoad 0 0 1280 800]))
      = [SetWidth 1280, SetHeight 800, SetTransform 1 0 0 1 0 0, Scale 2 2]"
    by (simp add: mount_def initial_def loadImages_def promise_all_def setLoadedImages_def
          resize_effect_def resizeCanvas_def draw_def settle_image_def run_def Let_def)
  then show ?thesis
    unfolding two_slides_loaded
    by (simp add: run_def handleMouseDown_def handleMouseMove_def resizeCanvas_def draw_def
          Let_def)
qed

section \<open>Promise.all and the preloader\<close>

lemma those_Loaded: "those (map slot_image (map Loaded imgs)) = Some imgs"
  by (induction imgs) simp_all

lemma those_Some_Loaded:
  "those (map slot_image slots) = Some imgs \<Longrightarrow> slots = map Loaded imgs"
proof (induction slots arbitrary: imgs)
  case Nil
  then show ?case by simp
next
  case (Cons s slots)
  then show ?case by (cases s) (auto split: option.splits)
qed

lemma those_slot_image:
  "those (map slot_image slots) = Some imgs \<longleftrightarrow> slots = map Loaded imgs"
  using those_Loaded those_Some_Loaded by blast


lemma promise_all_Fulfilled:
  "promise_all slots = Fulfilled imgs \<longleftrightarrow> slots = map Loaded imgs"
proof
  assume "promise_all slots = Fulfilled imgs"
  then have "those (map slot_image slots) = Some imgs"
    by (simp add: promise_all_def split: if_splits option.splits)
  then show "slots = map Loaded imgs" by (simp add: those_slot_image)
next
  assume s: "slots = map Loaded imgs"
  then have "those (map slot_image slots) = Some imgs" by (simp only: those_Loaded)
  moreover have "Failed \<notin> set slots" using s by auto
  ultimately show "promise_all slots = Fulfilled imgs"
    by (simp add: promise_all_def list_ex_iff)
qed

lemma promise_all_Unsettled:
  "promise_all slots = Unsettled \<longleftrightarrow> Failed \<notin> set slots \<and> Pending \<in> set slots"
proof -
  have "those (map slot_image slots) = None \<longleftrightarrow> Failed \<in> set slots \<or> Pending \<in> set slots"
  proof (induction slots)
    case Nil
    show ?case by simp
  next
    case (Cons s slots)
    then show ?case by (cases s) (auto split: option.splits)
  qed
  then show ?thesis
    by (auto simp: promise_all_def list_ex_iff split: option.splits)
qed


lemma settle_image_loaded:
  assumes "r < length (requests st)" and "i < length (req_slots (requests st ! r))"
    and "req_slots (requests st ! r) ! i = Pending"
  shows "loadedImages (settle_image r i outcome st) =
           (if promise_all (req_slots (requests st ! r)) = Unsettled
            then case promise_all ((req_slots (requests st ! r))[i := outcome]) of
                   Fulfilled loaded \<Rightarrow> loaded | _ \<Rightarrow> loadedImages st
            else loadedImages st)"
  using assms
  by (simp add: settle_image_def Let_def setLoadedImages_fields split: settlement.splits)

text \<open>
  C6 (as amended). Whenever the last pending image of a request loads, so that the
  request is fulfilled, its images become the loaded images, whether or not the request
  is the latest one: no request is compared with the most recent one.
\<close>

theorem stale_load_is_applied:
  assumes "r < length (requests st)" and "i < length (req_srcs (requests st ! r))"
    and "i < length (req_slots (requests st ! r))"
    and "req_slots (requests st ! r) ! i = Pending"
    and "(req_slots (requests st ! r))
            [i := Loaded \<lparr>img_src = req_srcs (requests st ! r) ! i, img_width = w, img_height = h\<rparr>]
          = map Loaded imgs"
  shows "loadedImages (step st (ImgLoad r i w h)) = imgs"
proof -
  let ?slots = "req_slots (requests st ! r)"
  let ?img = "\<lparr>img_src = req_srcs (requests st ! r) ! i, img_width = w, img_height = h\<rparr>"
  have f: "promise_all (?slots[i := Loaded ?img]) = Fulfilled imgs"
    using assms(5) by (simp add: promise_all_Fulfilled)
  have "Pending \<in> set ?slots" using assms(3,4) by (metis nth_mem)
  moreover have "Failed \<notin> set ?slots"
  proof
    assume "Failed \<in> set ?slots"
    then obtain j where j: "j < length ?slots" "?slots ! j = Failed" by (auto simp: in_set_conv_nth)
    with assms(4) have "j \<noteq> i" by auto
    with j have "(?slots[i := Loaded ?img]) ! j = Failed" by simp
    with j(1) assms(5) show False by auto (metis length_map nth_map slot.distinct(5) length_list_update)
  qed
  ultimately have u: "promise_all ?slots = Unsettled" by (simp add: promise_all_Unsettled)
  show ?thesis using assms(1,2) by (simp add: settle_image_loaded [OF assms(1,3,4)] u f)
qed

text \<open>
  The request for \<open>/images/0.jpg\<close> is superseded by one for \<open>/images/1.jpg\<close>, which
  loads first; when the older image loads, it replaces the newer one.
\<close>

theorem stale_load_is_applied_witness:
  "length (requests (run (mount [''/images/0.jpg''] None 640 400 1)
      [SetImages [''/images/1.jpg''], ImgLoad 1 0 800 800])) = 2
   \<and> loadedImages (run (mount [''/images/0.jpg''] None 640 400 1)
      [SetImages [''/images/1.jpg''], ImgLoad 1 0 800 800])
     = [\<lparr>img_src = ''/images/1.jpg'', img_width = 800, img_height = 800\<rparr>]
   \<and> loadedImages (step (run (mount [''/images/0.jpg''] None 640 400 1)
      [SetImages [''/images/1.jpg''], ImgLoad 1 0 800 800]) (ImgLoad 0 0 1280 800))
     = [\<lparr>img_src = ''/images/0.jpg'', img_width = 1280, img_height = 800\<rparr>]"
proof -
  let ?st = "run (mount [''/images/0.jpg''] None 640 400 1)
      [SetImages [''/images/1.jpg''], ImgLoad 1 0 800 800]"
  have r: "requests ?st =
      [\<lparr>req_srcs = [''/images/0.jpg''], req_slots = [Pending]\<rparr>,
       \<lparr>req_srcs = [''/images/1.jpg''],
        req_slots = [Loaded \<lparr>img_src = ''/images/1.jpg'', img_width = 800, img_height = 800\<rparr>]\<rparr>]"
    and l: "loadedImages ?st = [\<lparr>img_src = ''/images/1.jpg'', img_width = 800, img_height = 800\<rparr>]"
    by (simp_all add: evals)
  have "loadedImages (step ?st (ImgLoad 0 0 1280 800))
      = [\<lparr>img_src = ''/images/0.jpg'', img_width = 1280, img_height = 800\<rparr>]"
    by (rule stale_load_is_applied) (simp_all only: r, simp_all)
  with r l show ?thesis by simp
qed

text \<open>
  C6 as stated fails on that run: the \<open>images\<close> prop is \<open>[/images/1.jpg]\<close> and the
  loaded images are those of the superseded request.
\<close>

theorem stale_load_overwrites_latest:
  "images (run (mount [''/images/0.jpg''] None 640 400 1)
      [SetImages [''/images/1.jpg''], ImgLoad 1 0 800 800, ImgLoad 0 0 1280 800])
     = [''/images/1.jpg'']
   \<and> loadedImages (run (mount [''/images/0.jpg''] None 640 400 1)
      [SetImages [''/images/1.jpg''], ImgLoad 1 0 800 800, ImgLoad 0 0 1280 800])
     = [\<lparr>img_src = ''/images/0.jpg'', img_width = 1280, img_height = 800\<rparr>]"
  by (simp add: evals)












end
